theory Spec2Isabelle
  imports Main
begin

section \<open>Python values\<close>

text \<open>
  A Python \<open>str\<close> is a sequence of Unicode code points; it is modelled as a list of
  natural numbers, one per code point. The ASCII literals of the source are written
  through \<open>u\<close>, which maps each character of an Isabelle string to its code.
\<close>

type_synonym str = "nat list"

definition u :: "string \<Rightarrow> str" where
  "u s = map of_char s"

text \<open>
  The event is whatever \<open>json.load\<close> returns: any JSON value. A dict is
  an association list with distinct keys; a float carries mantissa and exponent, which the
  program never inspects.
\<close>

datatype json =
    JNull
  | JBool bool
  | JInt int
  | JFloat int int
  | JStr str
  | JList "json list"
  | JDict "(str \<times> json) list"

text \<open>
  The exceptions of a run. All but \<open>KeyboardInterrupt\<close> are below \<open>Exception\<close>;
  \<open>OtherException\<close> stands for the remaining classes below \<open>Exception\<close>
  (\<open>OSError\<close>, \<open>MemoryError\<close>, \<open>UnicodeDecodeError\<close>, ...).
\<close>

datatype pyerr = AttributeError | TypeError | JSONDecodeError | KeyboardInterrupt | OtherException

text \<open>\<open>d.get(k, default)\<close>: only a dict has the method \<open>get\<close>.\<close>

definition py_get :: "json \<Rightarrow> str \<Rightarrow> json \<Rightarrow> pyerr + json" where
  "py_get d k dflt =
     (case d of
        JDict kvs \<Rightarrow> Inr (case map_of kvs k of Some v \<Rightarrow> v | None \<Rightarrow> dflt)
      | _ \<Rightarrow> Inl AttributeError)"

section \<open>Regular expressions\<close>

text \<open>
  The fragment of Python's \<open>re\<close> syntax the pattern table uses: \<open>^\<close>, literal
  characters, \<open>\s\<close>, \<open>.\<close>, concatenation, \<open>|\<close>, \<open>*\<close> and \<open>+\<close>.
\<close>

datatype regex =
    Eps
  | Bol
  | Lit nat
  | Space
  | Dot
  | Seq regex regex
  | Alt regex regex
  | Star regex

definition Plus :: "regex \<Rightarrow> regex" where
  "Plus r = Seq r (Star r)"

fun lits :: "string \<Rightarrow> regex" where
  "lits [] = Eps"
| "lits (c # cs) = Seq (Lit (of_char c)) (lits cs)"

fun cat :: "regex list \<Rightarrow> regex" where
  "cat [] = Eps"
| "cat (r # rs) = Seq r (cat rs)"

text \<open>
  Case folding under \<open>re.IGNORECASE\<close> on a \<open>str\<close> pattern, for the characters an
  ASCII pattern letter can match: the 52 ASCII letters and the four code points U+0130,
  U+0131 (for i), U+017F (for s) and U+212A (for k).
\<close>

definition fold_case :: "nat \<Rightarrow> nat" where
  "fold_case x =
     (if 65 \<le> x \<and> x \<le> 90 then x + 32
      else if x = 304 \<or> x = 305 then 105
      else if x = 383 then 115
      else if x = 8490 then 107
      else x)"

text \<open>\<open>\s\<close> on a \<open>str\<close> pattern: the Unicode whitespace code points.\<close>

definition is_space :: "nat \<Rightarrow> bool" where
  "is_space x \<longleftrightarrow>
     (9 \<le> x \<and> x \<le> 13) \<or> (28 \<le> x \<and> x \<le> 32) \<or> x = 133 \<or> x = 160 \<or> x = 5760 \<or>
     (8192 \<le> x \<and> x \<le> 8202) \<or> x = 8232 \<or> x = 8233 \<or> x = 8239 \<or> x = 8287 \<or> x = 12288"

text \<open>
  \<open>star_iter k f ws\<close>: the texts reachable from \<open>ws\<close> by at most \<open>k\<close> rounds
  of \<open>f\<close>.
\<close>

fun star_iter :: "nat \<Rightarrow> (str \<Rightarrow> str list) \<Rightarrow> str list \<Rightarrow> str list" where
  "star_iter 0 f ws = ws"
| "star_iter (Suc k) f ws = ws @ star_iter k f (concat (map f ws))"

text \<open>
  \<open>rmatch n r s\<close>: every rest of \<open>s\<close> that can remain after \<open>r\<close> has consumed
  a prefix of it, where \<open>n\<close> is the length of the whole text (\<open>^\<close> holds only
  where nothing has been consumed yet). An iteration of \<open>*\<close> that consumes nothing
  reaches no new rest, so \<open>length s\<close> rounds are enough.
\<close>

fun rmatch :: "nat \<Rightarrow> regex \<Rightarrow> str \<Rightarrow> str list" where
  "rmatch n Eps s = [s]"
| "rmatch n Bol s = (if length s = n then [s] else [])"
| "rmatch n (Lit c) s =
     (case s of [] \<Rightarrow> [] | x # xs \<Rightarrow> if fold_case x = fold_case c then [xs] else [])"
| "rmatch n Space s = (case s of [] \<Rightarrow> [] | x # xs \<Rightarrow> if is_space x then [xs] else [])"
| "rmatch n Dot s = (case s of [] \<Rightarrow> [] | x # xs \<Rightarrow> if x \<noteq> 10 then [xs] else [])"
| "rmatch n (Seq a b) s = concat (map (\<lambda>t. rmatch n b t) (rmatch n a s))"
| "rmatch n (Alt a b) s = rmatch n a s @ rmatch n b s"
| "rmatch n (Star a) s = star_iter (length s) (\<lambda>t. rmatch n a t) [s]"

text \<open>\<open>bool(re.match(regex, text, re.IGNORECASE))\<close> for a \<open>str\<close> text.\<close>

definition re_match :: "regex \<Rightarrow> str \<Rightarrow> bool" where
  "re_match r s \<longleftrightarrow> rmatch (length s) r s \<noteq> []"

section \<open>The pattern table\<close>

record pattern =
  regex :: regex
  sound :: str
  voice_key :: str
  priority :: int
  description :: string

definition Pattern :: "regex \<Rightarrow> string \<Rightarrow> string \<Rightarrow> int \<Rightarrow> string \<Rightarrow> pattern" where
  "Pattern r s v p d =
     \<lparr>regex = r, sound = u s, voice_key = u v, priority = p, description = d\<rparr>"

text \<open>\<open>Pattern.matches\<close>: \<open>re.match\<close> raises \<open>TypeError\<close> on a text that is not a string.\<close>

definition matches :: "pattern \<Rightarrow> json \<Rightarrow> pyerr + bool" where
  "matches p text =
     (case text of JStr s \<Rightarrow> Inr (re_match (regex p) s) | _ \<Rightarrow> Inl TypeError)"

definition system_events :: "pattern list" where
  "system_events =
     [Pattern (lits ''Notification'') ''ready'' ''Notification'' 100 ''Claude is ready'',
      Pattern (lits ''Stop'') ''complete'' ''Stop'' 100 ''Task completed'',
      Pattern (lits ''SubagentStop'') ''complete'' ''SubagentStop'' 100 ''Subtask completed'',
      Pattern (lits ''UserPromptSubmit'') ''prompt'' ''UserPromptSubmit'' 100 ''User prompt'']"

definition tools :: "pattern list" where
  "tools =
     [Pattern (lits ''Edit'') ''edit'' ''Edit'' 90 ''File editing'',
      Pattern (lits ''MultiEdit'') ''edit'' ''MultiEdit'' 90 ''Multiple edits'',
      Pattern (lits ''Write'') ''write'' ''Write'' 90 ''File creation'',
      Pattern (lits ''NotebookEdit'') ''edit'' ''NotebookEdit'' 90 ''Notebook editing'',
      Pattern (lits ''TodoWrite'') ''list'' ''TodoWrite'' 80 ''Todo list update'',
      Pattern (lits ''Read'') ''read'' ''Read'' 70 ''File reading'',
      Pattern (lits ''Grep'') ''search'' ''Grep'' 70 ''Text search'',
      Pattern (lits ''Task'') ''task'' ''Task'' 70 ''Task execution'',
      Pattern (lits ''LS'') ''list'' ''LS'' 70 ''Directory listing'',
      Pattern (lits ''Glob'') ''search'' ''Glob'' 70 ''File pattern search'',
      Pattern (lits ''exit_plan_mode'') ''complete'' ''exit_plan_mode'' 70 ''Exit plan mode'',
      Pattern (lits ''WebFetch'') ''web'' ''WebFetch'' 70 ''Web fetch'',
      Pattern (lits ''WebSearch'') ''search'' ''WebSearch'' 70 ''Web search'']"

definition bash_commands :: "pattern list" where
  "bash_commands =
     [Pattern (cat [Bol, lits ''git'', Plus Space, lits ''commit''])
        ''commit'' ''git_commit'' 95 ''Git commit'',
      Pattern (cat [Bol, lits ''git'', Plus Space, lits ''push''])
        ''push'' ''git_push'' 95 ''Git push'',
      Pattern (cat [Bol, lits ''git'', Plus Space, lits ''pull''])
        ''pull'' ''git_pull'' 95 ''Git pull'',
      Pattern (cat [Bol, lits ''gh'', Plus Space, lits ''pr''])
        ''pr'' ''gh_pr'' 95 ''GitHub PR'',
      Pattern (Alt (cat [Bol, lits ''npm'', Plus Space, lits ''test''])
                   (cat [Bol, lits ''yarn'', Plus Space, lits ''test'']))
        ''test'' ''test'' 90 ''JavaScript tests'',
      Pattern (Alt (cat [Bol, lits ''pytest''])
                   (cat [Bol, lits ''python'', Star Dot, lits ''test'']))
        ''test'' ''test'' 90 ''Python tests'',
      Pattern (cat [Bol, lits ''go'', Plus Space, lits ''test''])
        ''test'' ''test'' 90 ''Go tests'',
      Pattern (cat [Bol, lits ''cargo'', Plus Space, lits ''test''])
        ''test'' ''test'' 90 ''Rust tests'',
      Pattern (cat [Bol, lits ''make'']) ''build'' ''build'' 85 ''Make build'',
      Pattern (cat [Bol, lits ''docker'']) ''docker'' ''docker'' 85 ''Docker command'',
      Pattern (cat [Bol, lits ''npm'']) ''npm'' ''npm'' 85 ''NPM command'',
      Pattern (cat [Bol, lits ''python'']) ''python'' ''python'' 85 ''Python command'',
      Pattern (Star Dot) ''bash'' ''Bash'' 0 ''Generic bash command'']"

section \<open>EventMatcher.find_match\<close>

text \<open>
  The loops over \<open>system_events\<close> and \<open>tools\<close>: the first pattern that matches is
  returned; a raise in \<open>matches\<close> leaves the loop.
\<close>

fun first_match :: "pattern list \<Rightarrow> json \<Rightarrow> pyerr + pattern option" where
  "first_match [] text = Inr None"
| "first_match (p # ps) text =
     (case matches p text of
        Inl e \<Rightarrow> Inl e
      | Inr True \<Rightarrow> Inr (Some p)
      | Inr False \<Rightarrow> first_match ps text)"

text \<open>The loop over \<open>bash_commands\<close>: every matching pattern is appended to \<open>matches\<close>.\<close>

fun collect_matches :: "pattern list \<Rightarrow> json \<Rightarrow> pyerr + pattern list" where
  "collect_matches [] text = Inr []"
| "collect_matches (p # ps) text =
     (case matches p text of
        Inl e \<Rightarrow> Inl e
      | Inr b \<Rightarrow>
          (case collect_matches ps text of
             Inl e \<Rightarrow> Inl e
           | Inr ms \<Rightarrow> Inr (if b then p # ms else ms)))"

text \<open>
  \<open>max(matches, key=lambda p: p.priority)\<close>: the running maximum is replaced only by an
  item whose key is strictly greater.
\<close>

fun max_by_priority :: "pattern \<Rightarrow> pattern list \<Rightarrow> pattern" where
  "max_by_priority best [] = best"
| "max_by_priority best (p # ps) =
     max_by_priority (if priority best < priority p then p else best) ps"

type_synonym directive = "str option \<times> str option"

definition pair_of :: "pattern \<Rightarrow> directive" where
  "pair_of p = (Some (sound p), Some (voice_key p))"

definition find_match :: "json \<Rightarrow> pyerr + directive" where
  "find_match event_data =
     (case py_get event_data (u ''hook_event_name'') (JStr []) of
        Inl e \<Rightarrow> Inl e
      | Inr event_name \<Rightarrow>
     (case py_get event_data (u ''tool_name'') (JStr []) of
        Inl e \<Rightarrow> Inl e
      | Inr tool_name \<Rightarrow>
     (case first_match system_events event_name of
        Inl e \<Rightarrow> Inl e
      | Inr (Some p) \<Rightarrow> Inr (pair_of p)
      | Inr None \<Rightarrow>
     (case first_match tools tool_name of
        Inl e \<Rightarrow> Inl e
      | Inr (Some p) \<Rightarrow> Inr (pair_of p)
      | Inr None \<Rightarrow>
          if tool_name = JStr (u ''Bash'') \<and> event_name = JStr (u ''PreToolUse'') then
            (case py_get event_data (u ''tool_input'') (JDict []) of
               Inl e \<Rightarrow> Inl e
             | Inr tool_input \<Rightarrow>
            (case py_get tool_input (u ''command'') (JStr []) of
               Inl e \<Rightarrow> Inl e
             | Inr command \<Rightarrow>
            (case collect_matches bash_commands command of
               Inl e \<Rightarrow> Inl e
             | Inr [] \<Rightarrow> Inr (None, None)
             | Inr (m # ms) \<Rightarrow> Inr (pair_of (max_by_priority m ms)))))
          else Inr (None, None)))))"

section \<open>The localization table\<close>

text \<open>The Japanese texts are written as their code points.\<close>

definition JAPANESE_EVENT_DESCRIPTIONS :: "(str \<times> str) list" where
  "JAPANESE_EVENT_DESCRIPTIONS =
     [
      (u ''Notification'', [12463, 12525, 12540, 12489, 12364, 28310, 20633, 23436,
         20102, 12375, 12414, 12375, 12383]),
      (u ''Stop'', [12479, 12473, 12463, 12364, 23436, 20102, 12375, 12414, 12375,
         12383]),
      (u ''SubagentStop'', [12469, 12502, 12479, 12473, 12463, 12364, 23436, 20102,
         12375, 12414, 12375, 12383]),
      (u ''UserPromptSubmit'', [12518, 12540, 12470, 12540, 12364, 12503, 12525, 12531,
         12503, 12488, 12434, 36865, 20449, 12375, 12414, 12375, 12383]),
      (u ''Edit'', [12501, 12449, 12452, 12523, 12434, 32232, 38598, 12375, 12390,
         12356, 12414, 12377]),
      (u ''MultiEdit'', [35079, 25968, 12398, 32232, 38598, 12434, 23455, 34892, 12375,
         12390, 12356, 12414, 12377]),
      (u ''Write'', [12501, 12449, 12452, 12523, 12434, 20316, 25104, 12375, 12390,
         12356, 12414, 12377]),
      (u ''NotebookEdit'', [12494, 12540, 12488, 12502, 12483, 12463, 12434, 32232,
         38598, 12375, 12390, 12356, 12414, 12377]),
      (u ''TodoWrite'', [12479, 12473, 12463, 12522, 12473, 12488, 12434, 26356, 26032,
         12375, 12390, 12356, 12414, 12377]),
      (u ''Read'', [12501, 12449, 12452, 12523, 12434, 35501, 12415, 36796, 12435,
         12391, 12356, 12414, 12377]),
      (u ''Grep'', [12486, 12461, 12473, 12488, 12434, 26908, 32034, 12375, 12390,
         12356, 12414, 12377]),
      (u ''Task'', [12479, 12473, 12463, 12434, 23455, 34892, 12375, 12390, 12356,
         12414, 12377]),
      (u ''Bash'', [12467, 12510, 12531, 12489, 12434, 23455, 34892, 12375, 12390,
         12356, 12414, 12377]),
      (u ''LS'', [12487, 12451, 12524, 12463, 12488, 12522, 12434, 19968, 35239, 34920,
         31034, 12375, 12390, 12356, 12414, 12377]),
      (u ''Glob'', [12501, 12449, 12452, 12523, 12497, 12479, 12540, 12531, 12434,
         26908, 32034, 12375, 12390, 12356, 12414, 12377]),
      (u ''exit_plan_mode'', [35336, 30011, 12514, 12540, 12489, 12434, 32066, 20102,
         12375, 12390, 12356, 12414, 12377]),
      (u ''WebFetch'', [12454, 12455, 12502, 12506, 12540, 12472, 12434, 21462, 24471,
         12375, 12390, 12356, 12414, 12377]),
      (u ''WebSearch'', [12454, 12455, 12502, 26908, 32034, 12434, 23455, 34892, 12375,
         12390, 12356, 12414, 12377]),
      (u ''git_commit'', [71, 105, 116, 12467, 12511, 12483, 12488, 12434, 20316, 25104,
         12375, 12390, 12356, 12414, 12377]),
      (u ''git_push'', [22793, 26356, 12434, 12503, 12483, 12471, 12517, 12375, 12390,
         12356, 12414, 12377]),
      (u ''git_pull'', [22793, 26356, 12434, 12503, 12523, 12375, 12390, 12356, 12414,
         12377]),
      (u ''gh_pr'', [12503, 12523, 12522, 12463, 12456, 12473, 12488, 12434, 20316,
         25104, 12375, 12390, 12356, 12414, 12377]),
      (u ''test'', [12486, 12473, 12488, 12434, 23455, 34892, 12375, 12390, 12356,
         12414, 12377]),
      (u ''build'', [12499, 12523, 12489, 12434, 23455, 34892, 12375, 12390, 12356,
         12414, 12377]),
      (u ''docker'', [68, 111, 99, 107, 101, 114, 12467, 12510, 12531, 12489, 12434,
         23455, 34892, 12375, 12390, 12356, 12414, 12377]),
      (u ''npm'', [78, 80, 77, 12467, 12510, 12531, 12489, 12434, 23455, 34892, 12375,
         12390, 12356, 12414, 12377]),
      (u ''python'', [80, 121, 116, 104, 111, 110, 12473, 12463, 12522, 12503, 12488,
         12434, 23455, 34892, 12375, 12390, 12356, 12414, 12377])]"

text \<open>\<open>JAPANESE_EVENT_DESCRIPTIONS.get(voice_key, voice_key)\<close>\<close>

definition japanese_text :: "str \<Rightarrow> str" where
  "japanese_text key =
     (case map_of JAPANESE_EVENT_DESCRIPTIONS key of Some t \<Rightarrow> t | None \<Rightarrow> key)"

section \<open>The host and the backends\<close>

datatype sound_player = AfplaySoundPlayer | SoxSoundPlayer | SystemBeepPlayer

datatype voice_player = MacOSSayVoicePlayer | EspeakVoicePlayer

text \<open>A path is the list of the operands joined by \<open>/\<close>.\<close>

datatype path = Path "str list"

text \<open>
  What the program asks of the machine it runs on: whether \<open>which cmd\<close> succeeds,
  \<open>platform.system()\<close>, whether a path exists, and whether a backend's \<open>play\<close> or
  \<open>speak\<close> returns \<open>True\<close> (each catches its own exceptions and returns
  \<open>False\<close>).
\<close>

record host =
  which :: "str \<Rightarrow> bool"
  system :: str
  path_exists :: "path \<Rightarrow> bool"
  play_ok :: "sound_player \<Rightarrow> path \<Rightarrow> bool"
  speak_ok :: "voice_player \<Rightarrow> str \<Rightarrow> bool"

fun sound_is_available :: "host \<Rightarrow> sound_player \<Rightarrow> bool" where
  "sound_is_available h AfplaySoundPlayer = which h (u ''afplay'')"
| "sound_is_available h SoxSoundPlayer = which h (u ''play'')"
| "sound_is_available h SystemBeepPlayer = True"

fun voice_is_available :: "host \<Rightarrow> voice_player \<Rightarrow> bool" where
  "voice_is_available h MacOSSayVoicePlayer = (which h (u ''say'') \<and> system h = u ''Darwin'')"
| "voice_is_available h EspeakVoicePlayer = which h (u ''espeak'')"

text \<open>
  The fields of \<open>HookConfig\<close> that decide control flow; volume, voice parameters and
  logging settings are only handed on to the backends and the logger.
\<close>

record hook_config =
  sounds_dir :: str
  sound_type :: str
  mode :: str
  fallback_enabled :: bool
  test_mode :: bool

text \<open>
  What a run does, in order. Calls of the logger are left out: they do not raise and
  decide nothing.
\<close>

datatype action =
    LogEvent json
  | CallSpeakText str
  | CallPlaySound str
  | Sleep nat
  | FindSoundFile str
  | PathExists path
  | Play sound_player path
  | Speak voice_player str

section \<open>AudioManager\<close>

text \<open>
  \<open>_init_sound_players\<close>, for any list of candidate classes; the program calls it
  with the three classes below.
\<close>

definition init_sound_players_from :: "host \<Rightarrow> sound_player list \<Rightarrow> sound_player list" where
  "init_sound_players_from h player_classes =
     (let players = filter (sound_is_available h) player_classes
      in if players = [] then players @ [SystemBeepPlayer] else players)"

definition init_sound_players :: "host \<Rightarrow> sound_player list" where
  "init_sound_players h =
     init_sound_players_from h [AfplaySoundPlayer, SoxSoundPlayer, SystemBeepPlayer]"

definition init_voice_players :: "host \<Rightarrow> voice_player list" where
  "init_voice_players h = filter (voice_is_available h) [MacOSSayVoicePlayer, EspeakVoicePlayer]"

text \<open>\<open>sub in s\<close> on strings.\<close>

fun starts_with :: "str \<Rightarrow> str \<Rightarrow> bool" where
  "starts_with s [] = True"
| "starts_with [] (c # cs) = False"
| "starts_with (x # xs) (c # cs) = (x = c \<and> starts_with xs cs)"

fun py_in :: "str \<Rightarrow> str \<Rightarrow> bool" where
  "py_in sub [] = (sub = [])"
| "py_in sub (x # xs) = (starts_with (x # xs) sub \<or> py_in sub xs)"

fun find_in :: "host \<Rightarrow> path list \<Rightarrow> path option \<times> action list" where
  "find_in h [] = (None, [])"
| "find_in h (p # ps) =
     (if path_exists h p then (Some p, [PathExists p])
      else (case find_in h ps of (r, acts) \<Rightarrow> (r, PathExists p # acts)))"

text \<open>\<open>_find_sound_file\<close>; the \<open>lru_cache\<close> is not modelled, a run looks up one name.\<close>

definition find_sound_file :: "host \<Rightarrow> hook_config \<Rightarrow> str \<Rightarrow> path option \<times> action list" where
  "find_sound_file h cfg sound_name =
     (case find_in h (map (\<lambda>ext. Path [sounds_dir cfg, sound_type cfg, sound_name @ u ext])
                        [''.wav'', ''.mp3'', ''.ogg'', ''.m4a'', ''.flac'']) of
        (r, acts) \<Rightarrow> (r, FindSoundFile sound_name # acts))"

definition play_system_beep :: "host \<Rightarrow> bool \<times> action list" where
  "play_system_beep h =
     (play_ok h SystemBeepPlayer (Path [u ''/dev/null'']),
      [Play SystemBeepPlayer (Path [u ''/dev/null''])])"

fun try_players :: "host \<Rightarrow> sound_player list \<Rightarrow> path \<Rightarrow> bool \<times> action list" where
  "try_players h [] sound_path = (False, [])"
| "try_players h (player # players) sound_path =
     (if play_ok h player sound_path then (True, [Play player sound_path])
      else (case try_players h players sound_path of
              (r, acts) \<Rightarrow> (r, Play player sound_path # acts)))"

text \<open>\<open>play_sound\<close>; code point 92 is the backslash.\<close>

definition play_sound :: "host \<Rightarrow> hook_config \<Rightarrow> sound_player list \<Rightarrow> str \<Rightarrow> bool \<times> action list" where
  "play_sound h cfg sound_players sound_name =
     (if py_in (u ''/'') sound_name \<or> py_in [92] sound_name \<or> py_in (u ''..'') sound_name
      then (False, [])
      else
        (case find_sound_file h cfg sound_name of
           (None, acts) \<Rightarrow>
             if fallback_enabled cfg
             then (case play_system_beep h of (r, bs) \<Rightarrow> (r, acts @ bs))
             else (False, acts)
         | (Some sound_path, acts) \<Rightarrow>
             (case try_players h sound_players sound_path of
                (True, bs) \<Rightarrow> (True, acts @ bs)
              | (False, bs) \<Rightarrow>
                  if fallback_enabled cfg
                  then (case play_system_beep h of (r, cs) \<Rightarrow> (r, acts @ bs @ cs))
                  else (False, acts @ bs))))"

fun try_voices :: "host \<Rightarrow> voice_player list \<Rightarrow> str \<Rightarrow> bool \<times> action list" where
  "try_voices h [] text = (False, [])"
| "try_voices h (player # players) text =
     (if speak_ok h player text then (True, [Speak player text])
      else (case try_voices h players text of (r, acts) \<Rightarrow> (r, Speak player text # acts)))"

definition speak_text :: "host \<Rightarrow> voice_player list \<Rightarrow> str \<Rightarrow> bool \<times> action list" where
  "speak_text h voice_players text =
     (if voice_players = [] then (False, []) else try_voices h voice_players text)"

section \<open>HookHandler.handle_event\<close>

text \<open>Truth value of an \<open>Optional[str]\<close>: \<open>None\<close> and the empty string are false.\<close>

fun truthy :: "str option \<Rightarrow> bool" where
  "truthy None = False"
| "truthy (Some s) = (s \<noteq> [])"

fun str_of :: "str option \<Rightarrow> str" where
  "str_of None = []"
| "str_of (Some s) = s"

definition call_play_sound :: "host \<Rightarrow> hook_config \<Rightarrow> sound_player list \<Rightarrow> str \<Rightarrow> action list" where
  "call_play_sound h cfg sound_players sound_name =
     CallPlaySound sound_name # snd (play_sound h cfg sound_players sound_name)"

definition call_speak_text :: "host \<Rightarrow> voice_player list \<Rightarrow> str \<Rightarrow> action list" where
  "call_speak_text h voice_players text =
     CallSpeakText text # snd (speak_text h voice_players text)"

text \<open>The part of \<open>handle_event\<close> after \<open>find_match\<close> has returned.\<close>

definition deliver ::
  "host \<Rightarrow> hook_config \<Rightarrow> sound_player list \<Rightarrow> voice_player list \<Rightarrow> directive \<Rightarrow> action list"
where
  "deliver h cfg sound_players voice_players d =
     (case d of (sound_name, key) \<Rightarrow>
        if \<not> truthy sound_name \<and> \<not> truthy key then []
        else if mode cfg = u ''sound'' \<and> truthy sound_name then
          (if \<not> test_mode cfg
           then call_play_sound h cfg sound_players (str_of sound_name) else [])
        else if mode cfg = u ''voice'' \<and> truthy key then
          (if \<not> test_mode cfg
           then call_speak_text h voice_players (japanese_text (str_of key)) else [])
        else if mode cfg = u ''both'' then
          (if truthy key then
             (if \<not> test_mode cfg
              then call_speak_text h voice_players (japanese_text (str_of key)) else [])
           else []) @
          (if truthy sound_name then
             (if \<not> test_mode cfg
              then Sleep 100 # call_play_sound h cfg sound_players (str_of sound_name) else [])
           else [])
        else [])"

text \<open>
  \<open>handle_event\<close>: the actions done, and the exception that leaves it, if any.
  \<open>_log_event\<close> catches its own exceptions.
\<close>

definition handle_event ::
  "host \<Rightarrow> hook_config \<Rightarrow> sound_player list \<Rightarrow> voice_player list \<Rightarrow> json
     \<Rightarrow> action list \<times> pyerr option"
where
  "handle_event h cfg sound_players voice_players event_data =
     (case find_match event_data of
        Inl e \<Rightarrow> ([LogEvent event_data], Some e)
      | Inr d \<Rightarrow> (LogEvent event_data # deliver h cfg sound_players voice_players d, None))"

section \<open>main\<close>

text \<open>
  A fault of the environment while the program runs: \<open>KeyboardInterrupt\<close>, or an
  exception below \<open>Exception\<close> that is not a \<open>JSONDecodeError\<close>.
\<close>

datatype fault = Interrupt | Failure

fun exc_of :: "fault \<Rightarrow> pyerr" where
  "exc_of Interrupt = KeyboardInterrupt"
| "exc_of Failure = OtherException"

text \<open>
  \<open>json.load(sys.stdin)\<close> returns the parsed value, raises \<open>JSONDecodeError\<close>, or
  fails otherwise (the stream cannot be read or decoded).
\<close>

datatype stdin_result = Parsed json | Undecodable | Unreadable fault

text \<open>
  A run: the host, the fault (if any) met in \<open>load_config()\<close> and
  \<open>HookHandler(config)\<close>, the configuration \<open>load_config\<close> returns, and what
  reading the standard input gives. \<open>load_config\<close> catches the exceptions of its own
  \<open>json.load\<close>, so no \<open>JSONDecodeError\<close> leaves it.
\<close>

record run =
  host :: host
  setup_fault :: "fault option"
  config :: hook_config
  stdin :: stdin_result

text \<open>The exception that leaves the \<open>try\<close> body before \<open>sys.exit(0)\<close> is reached.\<close>

definition raised :: "run \<Rightarrow> pyerr option" where
  "raised r =
     (case setup_fault r of
        Some f \<Rightarrow> Some (exc_of f)
      | None \<Rightarrow>
          (case stdin r of
             Undecodable \<Rightarrow> Some JSONDecodeError
           | Unreadable f \<Rightarrow> Some (exc_of f)
           | Parsed event_data \<Rightarrow>
               snd (handle_event (host r) (config r) (init_sound_players (host r))
                      (init_voice_players (host r)) event_data)))"

text \<open>The \<open>except\<close> clauses, in the order of the source.\<close>

fun except_exit :: "pyerr \<Rightarrow> int" where
  "except_exit JSONDecodeError = 1"
| "except_exit KeyboardInterrupt = 0"
| "except_exit e = 0"

text \<open>The exit status of \<open>main\<close>.\<close>

definition main :: "run \<Rightarrow> int" where
  "main r = (case raised r of Some e \<Rightarrow> except_exit e | None \<Rightarrow> 0)"

section \<open>Classes of events and sample inputs\<close>

text \<open>
  The command of a shell pre-execution event: \<open>tool_name\<close> is \<open>"Bash"\<close>,
  \<open>hook_event_name\<close> is \<open>"PreToolUse"\<close>, and the command is the string under
  \<open>tool_input.command\<close>, or the empty string where \<open>tool_input\<close> or
  \<open>command\<close> is absent. Every other payload has none.
\<close>

definition shell_command :: "json \<Rightarrow> str option" where
  "shell_command event_data =
     (case event_data of
        JDict kvs \<Rightarrow>
          if map_of kvs (u ''hook_event_name'') = Some (JStr (u ''PreToolUse'')) \<and>
             map_of kvs (u ''tool_name'') = Some (JStr (u ''Bash''))
          then
            (case map_of kvs (u ''tool_input'') of
               None \<Rightarrow> Some []
             | Some (JDict ti) \<Rightarrow>
                 (case map_of ti (u ''command'') of
                    None \<Rightarrow> Some []
                  | Some (JStr c) \<Rightarrow> Some c
                  | Some _ \<Rightarrow> None)
             | Some _ \<Rightarrow> None)
          else None
      | _ \<Rightarrow> None)"

text \<open>A field that is absent or holds a string.\<close>

fun str_or_absent :: "json option \<Rightarrow> bool" where
  "str_or_absent None = True"
| "str_or_absent (Some (JStr s)) = True"
| "str_or_absent (Some v) = False"

text \<open>
  A payload whose fields have the types the matcher expects: a mapping in which
  \<open>hook_event_name\<close> and \<open>tool_name\<close> are absent or strings and
  \<open>tool_input\<close> is absent or a mapping whose \<open>command\<close> is absent or a string.
\<close>

definition well_typed :: "json \<Rightarrow> bool" where
  "well_typed event_data =
     (case event_data of
        JDict kvs \<Rightarrow>
          str_or_absent (map_of kvs (u ''hook_event_name'')) \<and>
          str_or_absent (map_of kvs (u ''tool_name'')) \<and>
          (case map_of kvs (u ''tool_input'') of
             None \<Rightarrow> True
           | Some (JDict ti) \<Rightarrow> str_or_absent (map_of ti (u ''command''))
           | Some _ \<Rightarrow> False)
      | _ \<Rightarrow> False)"

definition git_commit_event :: json where
  "git_commit_event =
     JDict [(u ''hook_event_name'', JStr (u ''PreToolUse'')),
            (u ''tool_name'', JStr (u ''Bash'')),
            (u ''tool_input'', JDict [(u ''command'', JStr (u ''git commit -m x''))])]"

definition stop_event :: json where
  "stop_event = JDict [(u ''hook_event_name'', JStr (u ''Stop''))]"

definition numeric_name_event :: json where
  "numeric_name_event = JDict [(u ''hook_event_name'', JInt 5)]"

text \<open>A host with no external player, on which every file exists and every backend succeeds.\<close>

definition demo_host :: host where
  "demo_host =
     \<lparr>which = (\<lambda>cmd. False), system = u ''Linux'', path_exists = (\<lambda>p. True),
      play_ok = (\<lambda>player p. True), speak_ok = (\<lambda>player t. True)\<rparr>"

definition demo_config :: "string \<Rightarrow> bool \<Rightarrow> hook_config" where
  "demo_config m t =
     \<lparr>sounds_dir = u ''sounds'', sound_type = u ''beeps'', mode = u m,
      fallback_enabled = True, test_mode = t\<rparr>"

definition subagent_edit :: "(str \<times> json) list" where
  "subagent_edit =
     [(u ''hook_event_name'', JStr (u ''SubagentStop'')), (u ''tool_name'', JStr (u ''Edit''))]"

definition demo_run :: "fault option \<Rightarrow> stdin_result \<Rightarrow> run" where
  "demo_run f s =
     \<lparr>host = demo_host, setup_fault = f, config = demo_config ''voice'' False, stdin = s\<rparr>"

text \<open>
  A field read as a string: absent gives the empty string, a string gives itself, any
  other value gives none.
\<close>

fun str_field :: "json option \<Rightarrow> str option" where
  "str_field None = Some []"
| "str_field (Some (JStr s)) = Some s"
| "str_field (Some v) = None"

text \<open>
  A payload in which every field the matcher gets to read has the type it expects. The
  payload is a mapping; \<open>hook_event_name\<close> is absent or a string; unless a system rule
  matches it, \<open>tool_name\<close> is absent or a string; and unless a tool rule matches that, if
  the event is a shell pre-execution event, \<open>tool_input\<close> is absent or a mapping whose
  \<open>command\<close> is absent or a string.
\<close>

definition reads_ok :: "json \<Rightarrow> bool" where
  "reads_ok event_data =
     (case event_data of
        JDict kvs \<Rightarrow>
          (case str_field (map_of kvs (u ''hook_event_name'')) of
             None \<Rightarrow> False
           | Some event_name \<Rightarrow>
               if \<exists>p\<in>set system_events. re_match (regex p) event_name then True
               else
                 (case str_field (map_of kvs (u ''tool_name'')) of
                    None \<Rightarrow> False
                  | Some tool_name \<Rightarrow>
                      if \<exists>p\<in>set tools. re_match (regex p) tool_name then True
                      else if tool_name = u ''Bash'' \<and> event_name = u ''PreToolUse'' then
                        (case map_of kvs (u ''tool_input'') of
                           None \<Rightarrow> True
                         | Some (JDict ti) \<Rightarrow> str_or_absent (map_of ti (u ''command''))
                         | Some _ \<Rightarrow> False)
                      else True))
      | _ \<Rightarrow> False)"

definition stop_numeric_tool_event :: json where
  "stop_numeric_tool_event =
     JDict [(u ''hook_event_name'', JStr (u ''Stop'')), (u ''tool_name'', JInt 5)]"

definition edit_null_input_event :: json where
  "edit_null_input_event =
     JDict [(u ''tool_name'', JStr (u ''Edit'')), (u ''tool_input'', JNull)]"

definition bash_null_input_event :: json where
  "bash_null_input_event =
     JDict [(u ''hook_event_name'', JStr (u ''PreToolUse'')),
            (u ''tool_name'', JStr (u ''Bash'')), (u ''tool_input'', JNull)]"

section \<open>Backend initialization\<close>

text \<open>
  Claim C9. After backend initialization the list of sound backends is never empty, on any
  host: the system beep always reports available, and where probing a list of candidate
  classes keeps none of them, the system beep is appended, so the list is then exactly
  the system beep.
\<close>

theorem sound_players_nonempty:
  "init_sound_players h \<noteq> [] \<and>
   init_sound_players_from h cs \<noteq> [] \<and>
   sound_is_available h SystemBeepPlayer \<and>
   (filter (sound_is_available h) cs = [] \<longrightarrow> init_sound_players_from h cs = [SystemBeepPlayer])"
  by (simp add: init_sound_players_def init_sound_players_from_def Let_def)

theorem sound_players_nonempty_witness:
  "filter (sound_is_available demo_host) [AfplaySoundPlayer, SoxSoundPlayer] = [] \<and>
   init_sound_players_from demo_host [AfplaySoundPlayer, SoxSoundPlayer] = [SystemBeepPlayer] \<and>
   init_sound_players demo_host = [SystemBeepPlayer]"
  using sound_players_nonempty [of demo_host "[AfplaySoundPlayer, SoxSoundPlayer]"]
  by (simp add: demo_host_def init_sound_players_def init_sound_players_from_def)

section \<open>Rejected sound names\<close>

lemma starts_with_append: "starts_with (sub @ b) sub"
  by (induction sub) auto

lemma py_in_append: "py_in sub (a @ sub @ b)"
proof (induction a)
  case Nil
  show ?case by (cases "sub @ b") (use starts_with_append [of sub b] in auto)
next
  case (Cons x a)
  then show ?case by simp
qed

text \<open>
  Claim C3. A sound name that contains a slash (code point 47), a backslash (92) or two
  dots in a row (46, 46) is rejected by \<open>play_sound\<close>: the result is \<open>False\<close> and
  nothing is done, in particular \<open>_find_sound_file\<close> is not called and no path is
  probed. The model has no raising branch in \<open>play_sound\<close>.
\<close>

theorem play_sound_rejects:
  assumes "sound_name = a @ [47] @ b \<or> sound_name = a @ [92] @ b \<or>
           sound_name = a @ [46, 46] @ b"
  shows "play_sound h cfg sound_players sound_name = (False, [])"
proof -
  have "py_in (u ''/'') sound_name \<or> py_in [92] sound_name \<or> py_in (u ''..'') sound_name"
    using assms py_in_append [of "[47]" a b] py_in_append [of "[92]" a b]
      py_in_append [of "[46, 46]" a b]
    by (auto simp: u_def)
  then show ?thesis by (simp add: play_sound_def)
qed

theorem play_sound_rejects_witness:
  "u ''../etc/passwd'' = [] @ [46, 46] @ u ''/etc/passwd'' \<and>
   play_sound demo_host (demo_config ''sound'' False) [SystemBeepPlayer] (u ''../etc/passwd'')
     = (False, [])"
  using play_sound_rejects [of "u ''../etc/passwd''" "[]" "u ''/etc/passwd''" demo_host
      "demo_config ''sound'' False" "[SystemBeepPlayer]"]
  by (simp add: u_def)

section \<open>Facts about the matcher\<close>

lemma first_match_str:
  "first_match ps (JStr s) = Inr (find (\<lambda>p. re_match (regex p) s) ps)"
  by (induction ps) (simp_all add: matches_def)

lemma collect_matches_str:
  "collect_matches ps (JStr s) = Inr (filter (\<lambda>p. re_match (regex p) s) ps)"
  by (induction ps) (simp_all add: matches_def)

lemma max_by_priority_keep:
  "\<forall>y\<in>set ys. priority y \<le> priority p \<Longrightarrow> max_by_priority p ys = p"
  by (induction ys) auto

lemma max_by_priority_later:
  "priority b < priority p \<Longrightarrow> \<forall>x\<in>set xs. priority x < priority p \<Longrightarrow>
   \<forall>y\<in>set ys. priority y \<le> priority p \<Longrightarrow> max_by_priority b (xs @ p # ys) = p"
proof (induction xs arbitrary: b)
  case Nil
  then show ?case by (simp add: max_by_priority_keep)
next
  case (Cons x xs)
  then show ?case by simp
qed

lemma max_by_priority_first_max:
  assumes "\<forall>x\<in>set xs. priority x < priority p" and "\<forall>y\<in>set ys. priority y \<le> priority p"
    and "xs @ p # ys = m # ms"
  shows "max_by_priority m ms = p"
proof (cases xs)
  case Nil
  with assms show ?thesis by (simp add: max_by_priority_keep)
next
  case (Cons x xs')
  with assms have "m = x" "ms = xs' @ p # ys" by simp_all
  moreover have "priority x < priority p" "\<forall>z\<in>set xs'. priority z < priority p"
    using assms(1) Cons by simp_all
  ultimately show ?thesis using assms(2) by (simp add: max_by_priority_later)
qed

lemma u_Bash: "u ''Bash'' = [66, 97, 115, 104]"
  by (simp add: u_def)

lemma u_PreToolUse: "u ''PreToolUse'' = [80, 114, 101, 84, 111, 111, 108, 85, 115, 101]"
  by (simp add: u_def)

lemma no_system_PreToolUse: "first_match system_events (JStr (u ''PreToolUse'')) = Inr None"
  by (simp add: u_PreToolUse system_events_def Pattern_def matches_def re_match_def fold_case_def)

lemma no_tool_Bash: "first_match tools (JStr (u ''Bash'')) = Inr None"
  by (simp add: u_Bash tools_def Pattern_def matches_def re_match_def fold_case_def)

lemma keys_distinct:
  "u ''hook_event_name'' \<noteq> u ''tool_name''" "u ''hook_event_name'' \<noteq> u ''tool_input''"
  "u ''tool_name'' \<noteq> u ''tool_input''"
  by (simp_all add: u_def)

lemma find_match_shell:
  assumes "shell_command ev = Some c"
  shows "find_match ev =
    (case filter (\<lambda>p. re_match (regex p) c) bash_commands of
       [] \<Rightarrow> Inr (None, None)
     | m # ms \<Rightarrow> Inr (pair_of (max_by_priority m ms)))"
proof -
  from assms obtain kvs where ev: "ev = JDict kvs"
    by (auto simp: shell_command_def split: json.splits)
  from assms ev have en: "map_of kvs (u ''hook_event_name'') = Some (JStr (u ''PreToolUse''))"
    and tn: "map_of kvs (u ''tool_name'') = Some (JStr (u ''Bash''))"
    by (auto simp: shell_command_def split: if_splits)
  from assms ev en tn have
    cmd: "(case py_get ev (u ''tool_input'') (JDict []) of Inl e \<Rightarrow> Inl e
           | Inr ti \<Rightarrow> py_get ti (u ''command'') (JStr [])) = Inr (JStr c)"
    by (auto simp: shell_command_def py_get_def split: option.splits json.splits)
  show ?thesis
    using cmd
    by (auto simp: find_match_def ev py_get_def en tn no_system_PreToolUse no_tool_Bash
        collect_matches_str split: sum.splits option.splits json.splits list.splits)
qed


lemma find_first:
  "\<forall>q\<in>set xs. \<not> P q \<Longrightarrow> P p \<Longrightarrow> find P (xs @ p # ys) = Some p"
  by (induction xs) auto

lemma star_iter_nonempty: "ws \<noteq> [] \<Longrightarrow> star_iter k f ws \<noteq> []"
  by (cases k) auto

lemma catch_all_matches: "re_match (Star Dot) c"
  by (simp add: re_match_def star_iter_nonempty)

lemma max_by_priority_mem: "max_by_priority m ms \<in> set (m # ms)"
  by (induction ms arbitrary: m) auto

lemma first_match_mem: "first_match ps t = Inr (Some p) \<Longrightarrow> p \<in> set ps"
  by (induction ps) (auto split: sum.splits bool.splits if_splits)

lemma collect_matches_subset: "collect_matches ps t = Inr ms \<Longrightarrow> set ms \<subseteq> set ps"
  by (induction ps arbitrary: ms) (auto split: sum.splits if_splits)

lemma first_match_error: "first_match ps t = Inl e \<Longrightarrow> e = TypeError"
  by (induction ps) (auto simp: matches_def split: sum.splits bool.splits if_splits json.splits)

lemma collect_matches_error: "collect_matches ps t = Inl e \<Longrightarrow> e = TypeError"
  by (induction ps) (auto simp: matches_def split: sum.splits if_splits json.splits)

lemma py_get_error: "py_get d k dflt = Inl e \<Longrightarrow> e = AttributeError"
  by (auto simp: py_get_def split: json.splits)

lemma find_match_error:
  assumes "find_match ev = Inl e"
  shows "e = AttributeError \<or> e = TypeError"
  using assms
  by (auto simp: find_match_def split: sum.splits option.splits if_splits list.splits
      dest: py_get_error first_match_error collect_matches_error)

lemma find_match_from_tables:
  assumes "find_match ev = Inr d"
  shows "d = (None, None) \<or> (\<exists>p\<in>set (system_events @ tools @ bash_commands). d = pair_of p)"
proof -
  have mem: "max_by_priority m ms \<in> set bash_commands"
    if "collect_matches bash_commands t = Inr (m # ms)" for m ms t
    using collect_matches_subset [OF that] max_by_priority_mem [of m ms] by auto
  show ?thesis
    using assms
    by (auto simp: find_match_def split: sum.splits option.splits if_splits list.splits
        dest: first_match_mem mem)
qed

lemma table_entries:
  "\<forall>p\<in>set (system_events @ tools @ bash_commands).
     map_of JAPANESE_EVENT_DESCRIPTIONS (voice_key p) \<noteq> None \<and> sound p \<noteq> [] \<and> voice_key p \<noteq> []"
  by (simp add: system_events_def tools_def bash_commands_def Pattern_def
      JAPANESE_EVENT_DESCRIPTIONS_def u_def)

section \<open>Selection of the rule\<close>

text \<open>
  Claim C1. For a shell pre-execution event with command \<open>c\<close>, \<open>find_match\<close> returns
  the pair of the rule \<open>p\<close> of \<open>bash_commands\<close> that matches \<open>c\<close>, has a
  priority strictly above every matching rule declared before it and at least that of every
  matching rule declared after it: the highest priority among the matching rules, the
  earliest rule among equals. The command \<open>git commit -m x\<close> gives the rule
  \<open>git_commit\<close>.
\<close>

theorem shell_rule_selected:
  assumes "shell_command ev = Some c"
    and "bash_commands = earlier @ p # later"
    and "re_match (regex p) c"
    and "\<forall>q\<in>set earlier. re_match (regex q) c \<longrightarrow> priority q < priority p"
    and "\<forall>q\<in>set later. re_match (regex q) c \<longrightarrow> priority q \<le> priority p"
  shows "find_match ev = Inr (Some (sound p), Some (voice_key p)) \<and>
         find_match git_commit_event = Inr (Some (u ''commit''), Some (u ''git_commit''))"
proof
  let ?P = "\<lambda>q. re_match (regex q) c"
  have split: "filter ?P bash_commands = filter ?P earlier @ p # filter ?P later"
    unfolding assms(2) using assms(3) by simp
  obtain m ms where shape: "filter ?P earlier @ p # filter ?P later = m # ms"
    by (cases "filter ?P earlier") auto
  have ms: "filter ?P bash_commands = m # ms"
    using split shape by simp
  have "max_by_priority m ms = p"
  proof (rule max_by_priority_first_max)
    show "\<forall>x\<in>set (filter ?P earlier). priority x < priority p" using assms(4) by simp
    show "\<forall>y\<in>set (filter ?P later). priority y \<le> priority p" using assms(5) by simp
    show "filter ?P earlier @ p # filter ?P later = m # ms" by (rule shape)
  qed
  then show "find_match ev = Inr (Some (sound p), Some (voice_key p))"
    using find_match_shell [OF assms(1)] ms by (simp add: pair_of_def)
next
  show "find_match git_commit_event = Inr (Some (u ''commit''), Some (u ''git_commit''))"
    by (simp add: git_commit_event_def find_match_def py_get_def u_def system_events_def
        tools_def bash_commands_def Pattern_def matches_def re_match_def fold_case_def
        is_space_def Plus_def pair_of_def)
qed

theorem shell_rule_selected_witness:
  "shell_command git_commit_event = Some (u ''git commit -m x'') \<and>
   bash_commands = [] @ hd bash_commands # tl bash_commands \<and>
   priority (hd bash_commands) = 95 \<and>
   voice_key (hd bash_commands) = u ''git_commit'' \<and>
   re_match (regex (hd bash_commands)) (u ''git commit -m x'') \<and>
   find_match git_commit_event =
     Inr (Some (sound (hd bash_commands)), Some (voice_key (hd bash_commands)))"
proof -
  have a: "shell_command git_commit_event = Some (u ''git commit -m x'')"
    by (simp add: shell_command_def git_commit_event_def u_def)
  have b: "bash_commands = [] @ hd bash_commands # tl bash_commands"
    by (simp add: bash_commands_def)
  have c: "re_match (regex (hd bash_commands)) (u ''git commit -m x'')"
    by (simp add: bash_commands_def Pattern_def u_def re_match_def fold_case_def is_space_def
        Plus_def)
  have d: "priority (hd bash_commands) = 95" "voice_key (hd bash_commands) = u ''git_commit''"
    by (simp_all add: bash_commands_def Pattern_def)
  have e: "\<forall>q\<in>set (tl bash_commands). priority q \<le> 95"
    by (simp add: bash_commands_def Pattern_def)
  from e d have f: "\<forall>q\<in>set (tl bash_commands).
      re_match (regex q) (u ''git commit -m x'') \<longrightarrow> priority q \<le> priority (hd bash_commands)"
    by simp
  have g: "\<forall>q\<in>set []. re_match (regex q) (u ''git commit -m x'') \<longrightarrow>
      priority q < priority (hd bash_commands)"
    by simp
  show ?thesis
    using shell_rule_selected [OF a b c g f] a b c d by simp
qed

text \<open>
  Claim C4. For every shell pre-execution event and every command string, \<open>find_match\<close>
  returns the pair of some rule of \<open>bash_commands\<close>, never the null directive: the last
  rule of the table has priority 0 and matches every text.
\<close>

theorem shell_command_always_matched:
  assumes "shell_command ev = Some c"
  shows "(\<exists>p\<in>set bash_commands. find_match ev = Inr (Some (sound p), Some (voice_key p))) \<and>
         priority (last bash_commands) = 0 \<and> re_match (regex (last bash_commands)) c"
proof -
  let ?P = "\<lambda>q. re_match (regex q) c"
  have last: "regex (last bash_commands) = Star Dot" "priority (last bash_commands) = 0"
    "last bash_commands \<in> set bash_commands"
    by (simp_all add: bash_commands_def Pattern_def)
  then have "last bash_commands \<in> set (filter ?P bash_commands)"
    by (simp add: catch_all_matches)
  then obtain m ms where ms: "filter ?P bash_commands = m # ms"
    by (cases "filter ?P bash_commands") auto
  have "max_by_priority m ms \<in> set (filter ?P bash_commands)"
    using max_by_priority_mem [of m ms] ms by simp
  then have "max_by_priority m ms \<in> set bash_commands" by simp
  moreover have "find_match ev = Inr (pair_of (max_by_priority m ms))"
    using find_match_shell [OF assms] ms by simp
  ultimately show ?thesis using last by (auto simp: pair_of_def catch_all_matches)
qed

theorem shell_command_always_matched_witness:
  "shell_command git_commit_event = Some (u ''git commit -m x'') \<and>
   (\<exists>p\<in>set bash_commands.
      find_match git_commit_event = Inr (Some (sound p), Some (voice_key p)))"
proof -
  have a: "shell_command git_commit_event = Some (u ''git commit -m x'')"
    by (simp add: shell_command_def git_commit_event_def u_def)
  show ?thesis using shell_command_always_matched [OF a] a by simp
qed

text \<open>
  Claim C5. When \<open>hook_event_name\<close> is a string that the rule \<open>p\<close> of
  \<open>system_events\<close> matches and no rule declared before \<open>p\<close> matches,
  \<open>find_match\<close> returns the pair of \<open>p\<close>, whatever else the payload holds
  (any \<open>tool_name\<close>, of any type, or none).
\<close>

theorem system_event_first_match:
  assumes "system_events = earlier @ p # later"
    and "re_match (regex p) name"
    and "\<forall>q\<in>set earlier. \<not> re_match (regex q) name"
    and "map_of kvs (u ''hook_event_name'') = Some (JStr name)"
  shows "find_match (JDict kvs) = Inr (Some (sound p), Some (voice_key p))"
proof -
  have "first_match system_events (JStr name) = Inr (Some p)"
    unfolding assms(1) using assms(2,3) by (simp add: first_match_str find_first)
  then show ?thesis
    using assms(4) by (simp add: find_match_def py_get_def pair_of_def)
qed

theorem system_event_first_match_witness:
  "system_events = take 2 system_events @ system_events ! 2 # drop 3 system_events \<and>
   re_match (regex (system_events ! 2)) (u ''SubagentStop'') \<and>
   \<not> re_match (regex (system_events ! 0)) (u ''SubagentStop'') \<and>
   \<not> re_match (regex (system_events ! 1)) (u ''SubagentStop'') \<and>
   map_of subagent_edit (u ''hook_event_name'') = Some (JStr (u ''SubagentStop'')) \<and>
   map_of subagent_edit (u ''tool_name'') = Some (JStr (u ''Edit'')) \<and>
   find_match (JDict subagent_edit) = Inr (Some (u ''complete''), Some (u ''SubagentStop''))"
proof -
  have a: "system_events = take 2 system_events @ system_events ! 2 # drop 3 system_events"
    by (simp add: system_events_def)
  have b: "re_match (regex (system_events ! 2)) (u ''SubagentStop'')"
    by (simp add: system_events_def Pattern_def u_def re_match_def fold_case_def)
  have c: "\<forall>q\<in>set (take 2 system_events). \<not> re_match (regex q) (u ''SubagentStop'')"
    by (simp add: system_events_def Pattern_def u_def re_match_def fold_case_def)
  have c': "\<not> re_match (regex (system_events ! 0)) (u ''SubagentStop'')"
    "\<not> re_match (regex (system_events ! 1)) (u ''SubagentStop'')"
    by (simp_all add: system_events_def Pattern_def u_def re_match_def fold_case_def)
  have d: "map_of subagent_edit (u ''hook_event_name'') = Some (JStr (u ''SubagentStop''))"
    by (simp add: subagent_edit_def)
  have e: "map_of subagent_edit (u ''tool_name'') = Some (JStr (u ''Edit''))"
    by (simp add: subagent_edit_def u_def)
  have f: "sound (system_events ! 2) = u ''complete''"
    "voice_key (system_events ! 2) = u ''SubagentStop''"
    by (simp_all add: system_events_def Pattern_def)
  show ?thesis
    using system_event_first_match [OF a b c d] a b c' d e f by simp
qed

section \<open>Malformed payloads\<close>

lemma first_match_nonstr:
  "(\<And>s. t \<noteq> JStr s) \<Longrightarrow> first_match (p # ps) t = Inl TypeError"
  by (cases t) (auto simp: matches_def)

lemma collect_matches_nonstr:
  "(\<And>s. t \<noteq> JStr s) \<Longrightarrow> collect_matches (p # ps) t = Inl TypeError"
  by (cases t) (auto simp: matches_def)

lemma first_match_system_nonstr:
  "(\<And>s. t \<noteq> JStr s) \<Longrightarrow> first_match system_events t = Inl TypeError"
  unfolding system_events_def by (rule first_match_nonstr)

lemma first_match_tools_nonstr:
  "(\<And>s. t \<noteq> JStr s) \<Longrightarrow> first_match tools t = Inl TypeError"
  unfolding tools_def by (rule first_match_nonstr)

lemma collect_matches_bash_nonstr:
  "(\<And>s. t \<noteq> JStr s) \<Longrightarrow> collect_matches bash_commands t = Inl TypeError"
  unfolding bash_commands_def by (rule collect_matches_nonstr)

lemma str_field_Some:
  "str_field m = Some s \<Longrightarrow> (case m of Some v \<Rightarrow> v | None \<Rightarrow> JStr []) = JStr s"
  by (cases m rule: str_field.cases) simp_all

lemma str_field_None:
  "str_field m = None \<Longrightarrow> (case m of Some v \<Rightarrow> v | None \<Rightarrow> JStr []) \<noteq> JStr s"
  by (cases m rule: str_field.cases) simp_all

lemma str_or_absent_iff: "str_or_absent m \<longleftrightarrow> str_field m \<noteq> None"
  by (cases m rule: str_field.cases) simp_all

lemma find_Some_iff_ex: "(\<exists>p. find P xs = Some p) \<longleftrightarrow> (\<exists>x\<in>set xs. P x)"
  by (induction xs) auto

lemma find_match_reads_ok: "(\<exists>d. find_match ev = Inr d) \<longleftrightarrow> reads_ok ev"
proof (cases ev)
  case (JDict kvs)
  let ?en = "case map_of kvs (u ''hook_event_name'') of Some v \<Rightarrow> v | None \<Rightarrow> JStr []"
  let ?tn = "case map_of kvs (u ''tool_name'') of Some v \<Rightarrow> v | None \<Rightarrow> JStr []"
  show ?thesis
  proof (cases "str_field (map_of kvs (u ''hook_event_name''))")
    case None
    have "first_match system_events ?en = Inl TypeError"
      by (rule first_match_system_nonstr) (rule str_field_None [OF None])
    then have "find_match ev = Inl TypeError"
      by (simp add: JDict find_match_def py_get_def)
    with None show ?thesis by (simp add: JDict reads_ok_def)
  next
    case (Some en)
    note en = str_field_Some [OF Some]
    show ?thesis
    proof (cases "find (\<lambda>p. re_match (regex p) en) system_events")
      case (Some p)
      then have "\<exists>p\<in>set system_events. re_match (regex p) en"
        using find_Some_iff_ex [of "\<lambda>p. re_match (regex p) en" system_events] by auto
      moreover have "find_match ev = Inr (pair_of p)"
        by (simp add: JDict find_match_def py_get_def en first_match_str Some)
      ultimately show ?thesis using \<open>str_field _ = Some en\<close> by (simp add: JDict reads_ok_def)
    next
      case None
      then have nosys: "\<not> (\<exists>p\<in>set system_events. re_match (regex p) en)"
        using find_Some_iff_ex [of "\<lambda>p. re_match (regex p) en" system_events] by auto
      note sys = None
      show ?thesis
      proof (cases "str_field (map_of kvs (u ''tool_name''))")
        case None
        have "first_match tools ?tn = Inl TypeError"
          by (rule first_match_tools_nonstr) (rule str_field_None [OF None])
        then have "find_match ev = Inl TypeError"
          by (simp add: JDict find_match_def py_get_def en first_match_str sys)
        with None nosys \<open>str_field _ = Some en\<close> show ?thesis by (simp add: JDict reads_ok_def)
      next
        case (Some tn)
        note tn = str_field_Some [OF Some]
        note tnf = Some
        show ?thesis
        proof (cases "find (\<lambda>p. re_match (regex p) tn) tools")
          case (Some p)
          then have "\<exists>p\<in>set tools. re_match (regex p) tn"
            using find_Some_iff_ex [of "\<lambda>p. re_match (regex p) tn" tools] by auto
          moreover have "find_match ev = Inr (pair_of p)"
            by (simp add: JDict find_match_def py_get_def en tn first_match_str sys Some)
          ultimately show ?thesis
            using \<open>str_field _ = Some en\<close> tnf nosys by (simp add: JDict reads_ok_def)
        next
          case None
          then have notool: "\<not> (\<exists>p\<in>set tools. re_match (regex p) tn)"
            using find_Some_iff_ex [of "\<lambda>p. re_match (regex p) tn" tools] by auto
          have base: "find_match ev =
            (if tn = u ''Bash'' \<and> en = u ''PreToolUse'' then
               (case py_get ev (u ''tool_input'') (JDict []) of
                  Inl e \<Rightarrow> Inl e
                | Inr tool_input \<Rightarrow>
               (case py_get tool_input (u ''command'') (JStr []) of
                  Inl e \<Rightarrow> Inl e
                | Inr command \<Rightarrow>
               (case collect_matches bash_commands command of
                  Inl e \<Rightarrow> Inl e
                | Inr [] \<Rightarrow> Inr (None, None)
                | Inr (m # ms) \<Rightarrow> Inr (pair_of (max_by_priority m ms)))))
             else Inr (None, None))"
            by (simp add: JDict find_match_def py_get_def en tn first_match_str sys None)
          have ok: "reads_ok ev \<longleftrightarrow>
            (if tn = u ''Bash'' \<and> en = u ''PreToolUse'' then
               (case map_of kvs (u ''tool_input'') of
                  None \<Rightarrow> True
                | Some (JDict ti) \<Rightarrow> str_or_absent (map_of ti (u ''command''))
                | Some _ \<Rightarrow> False)
             else True)"
            using \<open>str_field _ = Some en\<close> tnf nosys notool by (simp add: JDict reads_ok_def)
          show ?thesis
          proof (cases "tn = u ''Bash'' \<and> en = u ''PreToolUse''")
            case False
            then show ?thesis using base ok by auto
          next
            case True
            have str_cmd: "\<exists>d. (case collect_matches bash_commands (JStr c) of
                  Inl e \<Rightarrow> Inl e
                | Inr [] \<Rightarrow> Inr (None, None)
                | Inr (m # ms) \<Rightarrow> Inr (pair_of (max_by_priority m ms))) = Inr d" for c
              by (simp add: collect_matches_str split: list.splits)
            have bad_cmd: "collect_matches bash_commands v = Inl TypeError"
              if "\<And>s. v \<noteq> JStr s" for v
              by (rule collect_matches_bash_nonstr) (rule that)
            show ?thesis
            proof (cases "map_of kvs (u ''tool_input'')")
              case None
              then show ?thesis
                using base ok True str_cmd [of "[]"] by (simp add: JDict py_get_def)
            next
              case (Some ti_j)
              show ?thesis
              proof (cases ti_j)
                case (JDict ti)
                show ?thesis
                proof (cases "str_field (map_of ti (u ''command''))")
                  case None
                  let ?c = "case map_of ti (u ''command'') of Some v \<Rightarrow> v | None \<Rightarrow> JStr []"
                  have "collect_matches bash_commands ?c = Inl TypeError"
                    by (rule bad_cmd) (rule str_field_None [OF None])
                  moreover have "\<not> str_or_absent (map_of ti (u ''command''))"
                    using None by (simp add: str_or_absent_iff)
                  ultimately show ?thesis
                    using base ok True Some JDict
                    by (simp add: \<open>ev = JDict kvs\<close> py_get_def)
                next
                  case (Some c)
                  have "str_or_absent (map_of ti (u ''command''))"
                    using Some by (simp add: str_or_absent_iff)
                  then show ?thesis
                    using base ok True \<open>map_of kvs (u ''tool_input'') = Some ti_j\<close> JDict
                      str_cmd [of c] str_field_Some [OF Some]
                    by (simp add: \<open>ev = JDict kvs\<close> py_get_def)
                qed
              qed (use base ok True Some in \<open>simp_all add: \<open>ev = JDict kvs\<close> py_get_def\<close>)
            qed
          qed
        qed
      qed
    qed
  qed
qed (simp_all add: find_match_def py_get_def reads_ok_def)

text \<open>
  A payload whose fields all have the expected types is matched without a raise, and an
  absent \<open>hook_event_name\<close>, \<open>tool_name\<close> or \<open>command\<close> is read as the empty
  string: the result is the one for the payload with that field set to \<open>""\<close>.
\<close>

lemma find_match_defaults:
  "(well_typed ev \<longrightarrow> (\<exists>d. find_match ev = Inr d)) \<and>
   (map_of kvs (u ''hook_event_name'') = None \<longrightarrow>
      find_match (JDict kvs) = find_match (JDict ((u ''hook_event_name'', JStr []) # kvs))) \<and>
   (map_of kvs (u ''tool_name'') = None \<longrightarrow>
      find_match (JDict kvs) = find_match (JDict ((u ''tool_name'', JStr []) # kvs))) \<and>
   (map_of kvs (u ''tool_input'') = Some (JDict ti) \<and> map_of ti (u ''command'') = None \<longrightarrow>
      find_match (JDict kvs) =
      find_match (JDict ((u ''tool_input'', JDict ((u ''command'', JStr []) # ti)) # kvs)))"
proof (intro conjI impI)
  assume wt: "well_typed ev"
  then obtain kvs' where ev: "ev = JDict kvs'"
    by (auto simp: well_typed_def split: json.splits)
  from wt ev obtain en where en: "py_get ev (u ''hook_event_name'') (JStr []) = Inr (JStr en)"
    by (cases "map_of kvs' (u ''hook_event_name'')" rule: str_or_absent.cases)
       (auto simp: well_typed_def py_get_def)
  from wt ev obtain tn where tn: "py_get ev (u ''tool_name'') (JStr []) = Inr (JStr tn)"
    by (cases "map_of kvs' (u ''tool_name'')" rule: str_or_absent.cases)
       (auto simp: well_typed_def py_get_def)
  from wt ev obtain ti' where ti: "py_get ev (u ''tool_input'') (JDict []) = Inr (JDict ti')"
    and c: "str_or_absent (map_of ti' (u ''command''))"
    by (auto simp: well_typed_def py_get_def split: option.splits json.splits)
  from c obtain cmd where cmd: "py_get (JDict ti') (u ''command'') (JStr []) = Inr (JStr cmd)"
    by (cases "map_of ti' (u ''command'')" rule: str_or_absent.cases)
       (auto simp: py_get_def)
  show "\<exists>d. find_match ev = Inr d"
    by (simp add: find_match_def en tn ti cmd first_match_str collect_matches_str
        split: option.splits list.splits)
next
  assume "map_of kvs (u ''hook_event_name'') = None"
  then show "find_match (JDict kvs) = find_match (JDict ((u ''hook_event_name'', JStr []) # kvs))"
    by (simp add: find_match_def py_get_def u_def)
next
  assume "map_of kvs (u ''tool_name'') = None"
  then show "find_match (JDict kvs) = find_match (JDict ((u ''tool_name'', JStr []) # kvs))"
    by (simp add: find_match_def py_get_def u_def)
next
  assume "map_of kvs (u ''tool_input'') = Some (JDict ti) \<and> map_of ti (u ''command'') = None"
  then have ti: "map_of kvs (u ''tool_input'') = Some (JDict ti)"
    and c: "map_of ti (u ''command'') = None"
    by simp_all
  let ?kvs = "(u ''tool_input'', JDict ((u ''command'', JStr []) # ti)) # kvs"
  have e1: "py_get (JDict ?kvs) (u ''hook_event_name'') (JStr []) =
            py_get (JDict kvs) (u ''hook_event_name'') (JStr [])"
    and e2: "py_get (JDict ?kvs) (u ''tool_name'') (JStr []) =
             py_get (JDict kvs) (u ''tool_name'') (JStr [])"
    using keys_distinct by (simp_all add: py_get_def)
  have a: "py_get (JDict kvs) (u ''tool_input'') (JDict []) = Inr (JDict ti)"
    and b: "py_get (JDict ?kvs) (u ''tool_input'') (JDict []) =
            Inr (JDict ((u ''command'', JStr []) # ti))"
    using ti by (simp_all add: py_get_def)
  have d: "py_get (JDict ti) (u ''command'') (JStr []) = Inr (JStr [])"
    and d': "py_get (JDict ((u ''command'', JStr []) # ti)) (u ''command'') (JStr []) =
             Inr (JStr [])"
    using c by (simp_all add: py_get_def)
  show "find_match (JDict kvs) = find_match (JDict ?kvs)"
    unfolding find_match_def e1 e2 a b sum.case d d' by (rule refl)
qed

lemma find_match_stop: "find_match stop_event = Inr (Some (u ''complete''), Some (u ''Stop''))"
  by (simp add: stop_event_def find_match_def py_get_def u_def system_events_def Pattern_def
      matches_def re_match_def fold_case_def pair_of_def)

text \<open>
  Claim C2, as the code has it. \<open>find_match\<close> returns a directive exactly for the
  payloads in which every field the matcher gets to read has the expected type
  (\<open>reads_ok\<close>): a mapping whose \<open>hook_event_name\<close> is absent or a string; whose
  \<open>tool_name\<close>, unless a system rule has matched, is absent or a string; and whose
  \<open>tool_input\<close>, where the shell branch is reached, is absent or a mapping with
  \<open>command\<close> absent or a string. On every other payload it raises
  \<open>AttributeError\<close> or \<open>TypeError\<close>. Every payload with all three fields absent or
  well typed is among those that return, and an absent \<open>hook_event_name\<close>,
  \<open>tool_name\<close> or \<open>command\<close> is read as the empty string.
\<close>

theorem find_match_returns_iff:
  "((\<exists>d. find_match ev = Inr d) \<longleftrightarrow> reads_ok ev) \<and>
   (\<not> reads_ok ev \<longrightarrow> find_match ev = Inl AttributeError \<or> find_match ev = Inl TypeError) \<and>
   (well_typed ev \<longrightarrow> reads_ok ev) \<and>
   (map_of kvs (u ''hook_event_name'') = None \<longrightarrow>
      find_match (JDict kvs) = find_match (JDict ((u ''hook_event_name'', JStr []) # kvs))) \<and>
   (map_of kvs (u ''tool_name'') = None \<longrightarrow>
      find_match (JDict kvs) = find_match (JDict ((u ''tool_name'', JStr []) # kvs))) \<and>
   (map_of kvs (u ''tool_input'') = Some (JDict ti) \<and> map_of ti (u ''command'') = None \<longrightarrow>
      find_match (JDict kvs) =
      find_match (JDict ((u ''tool_input'', JDict ((u ''command'', JStr []) # ti)) # kvs)))"
proof -
  have iff: "(\<exists>d. find_match ev = Inr d) \<longleftrightarrow> reads_ok ev"
    by (rule find_match_reads_ok)
  have raises: "find_match ev = Inl AttributeError \<or> find_match ev = Inl TypeError"
    if "\<not> reads_ok ev"
  proof (cases "find_match ev")
    case (Inl e)
    with find_match_error [OF Inl] show ?thesis by auto
  next
    case (Inr d)
    with iff that show ?thesis by auto
  qed
  have wt: "reads_ok ev" if "well_typed ev"
    using find_match_defaults [of ev kvs ti] that iff by blast
  show ?thesis
    using iff raises wt find_match_defaults [of ev kvs ti] by blast
qed

text \<open>
  Claim C2, as stated, fails: on the payload \<open>{"hook_event_name": 5}\<close> the first
  \<open>re.match\<close> of the \<open>system_events\<close> loop raises \<open>TypeError\<close>.
\<close>

theorem find_match_raises_on_number: "find_match numeric_name_event = Inl TypeError"
  by (simp add: numeric_name_event_def find_match_def py_get_def system_events_def Pattern_def
      matches_def)

theorem find_match_returns_iff_witness:
  "reads_ok stop_numeric_tool_event \<and> \<not> well_typed stop_numeric_tool_event \<and>
   find_match stop_numeric_tool_event = Inr (Some (u ''complete''), Some (u ''Stop'')) \<and>
   reads_ok edit_null_input_event \<and> \<not> well_typed edit_null_input_event \<and>
   find_match edit_null_input_event = Inr (Some (u ''edit''), Some (u ''Edit'')) \<and>
   \<not> reads_ok bash_null_input_event \<and>
   find_match bash_null_input_event = Inl AttributeError \<and>
   \<not> reads_ok numeric_name_event \<and>
   well_typed stop_event \<and> reads_ok stop_event \<and>
   find_match stop_event = Inr (Some (u ''complete''), Some (u ''Stop'')) \<and>
   map_of [] (u ''hook_event_name'') = (None :: json option) \<and>
   find_match (JDict []) = find_match (JDict [(u ''hook_event_name'', JStr [])]) \<and>
   find_match (JDict []) = Inr (None, None)"
proof -
  have a: "find_match stop_numeric_tool_event = Inr (Some (u ''complete''), Some (u ''Stop''))"
    by (simp add: stop_numeric_tool_event_def find_match_def py_get_def u_def system_events_def
        Pattern_def matches_def re_match_def fold_case_def pair_of_def)
  have a': "\<not> well_typed stop_numeric_tool_event"
    by (simp add: stop_numeric_tool_event_def well_typed_def u_def)
  have b: "find_match edit_null_input_event = Inr (Some (u ''edit''), Some (u ''Edit''))"
    by (simp add: edit_null_input_event_def find_match_def py_get_def u_def system_events_def
        tools_def Pattern_def matches_def re_match_def fold_case_def pair_of_def)
  have b': "\<not> well_typed edit_null_input_event"
    by (simp add: edit_null_input_event_def well_typed_def u_def)
  have c: "find_match bash_null_input_event = Inl AttributeError"
    by (simp add: bash_null_input_event_def find_match_def py_get_def u_def system_events_def
        tools_def Pattern_def matches_def re_match_def fold_case_def pair_of_def)
  have d: "find_match numeric_name_event = Inl TypeError"
    by (simp add: numeric_name_event_def find_match_def py_get_def system_events_def
        Pattern_def matches_def)
  have e: "well_typed stop_event"
    by (simp add: well_typed_def stop_event_def u_def)
  have f: "find_match (JDict []) = Inr (None, None)"
    by (simp add: find_match_def py_get_def u_def system_events_def tools_def Pattern_def
        matches_def re_match_def fold_case_def pair_of_def)
  show ?thesis
    using find_match_returns_iff [of stop_numeric_tool_event "[]" "[]"]
      find_match_returns_iff [of edit_null_input_event "[]" "[]"]
      find_match_returns_iff [of bash_null_input_event "[]" "[]"]
      find_match_returns_iff [of numeric_name_event "[]" "[]"]
      find_match_returns_iff [of stop_event "[]" "[]"]
      a a' b b' c d e f find_match_stop
    by simp
qed

section \<open>Localization and test mode\<close>

lemma find_match_nonempty:
  assumes "find_match ev = Inr (Some s, Some v)"
  shows "s \<noteq> [] \<and> v \<noteq> [] \<and> map_of JAPANESE_EVENT_DESCRIPTIONS v \<noteq> None"
proof -
  from find_match_from_tables [OF assms]
  obtain p where "p \<in> set (system_events @ tools @ bash_commands)" "(Some s, Some v) = pair_of p"
    by auto
  with table_entries show ?thesis by (auto simp: pair_of_def)
qed

lemma find_match_halves:
  assumes "find_match ev = Inr (s, v)"
  shows "(s = None \<and> v = None) \<or> (\<exists>a b. s = Some a \<and> v = Some b)"
  using find_match_from_tables [OF assms] by (auto simp: pair_of_def)

text \<open>
  Claim C10. Every \<open>voice_key\<close> of the three pattern tables is a key of
  \<open>JAPANESE_EVENT_DESCRIPTIONS\<close>; so for every voice key that \<open>find_match\<close> returns,
  the lookup \<open>JAPANESE_EVENT_DESCRIPTIONS.get(voice_key, voice_key)\<close> finds an entry and
  never falls back to the raw key.
\<close>

theorem voice_keys_localized:
  "(\<forall>p\<in>set (system_events @ tools @ bash_commands).
      map_of JAPANESE_EVENT_DESCRIPTIONS (voice_key p) \<noteq> None) \<and>
   (find_match ev = Inr (s, Some v) \<longrightarrow>
      (\<exists>t. map_of JAPANESE_EVENT_DESCRIPTIONS v = Some t \<and> japanese_text v = t))"
proof (intro conjI impI)
  show "\<forall>p\<in>set (system_events @ tools @ bash_commands).
      map_of JAPANESE_EVENT_DESCRIPTIONS (voice_key p) \<noteq> None"
    using table_entries by blast
next
  assume fm: "find_match ev = Inr (s, Some v)"
  with find_match_halves [OF fm] obtain a where "s = Some a" by auto
  with fm find_match_nonempty [of ev a v]
  have "map_of JAPANESE_EVENT_DESCRIPTIONS v \<noteq> None" by simp
  then show "\<exists>t. map_of JAPANESE_EVENT_DESCRIPTIONS v = Some t \<and> japanese_text v = t"
    by (auto simp: japanese_text_def)
qed

theorem voice_keys_localized_witness:
  "hd bash_commands \<in> set (system_events @ tools @ bash_commands) \<and>
   map_of JAPANESE_EVENT_DESCRIPTIONS (voice_key (hd bash_commands)) \<noteq> None \<and>
   find_match stop_event = Inr (Some (u ''complete''), Some (u ''Stop'')) \<and>
   (\<exists>t. map_of JAPANESE_EVENT_DESCRIPTIONS (u ''Stop'') = Some t \<and> japanese_text (u ''Stop'') = t)"
proof -
  have a: "hd bash_commands \<in> set (system_events @ tools @ bash_commands)"
    by (simp add: bash_commands_def)
  show ?thesis
    using voice_keys_localized [of stop_event "Some (u ''complete'')" "u ''Stop''"] a
      find_match_stop
    by blast
qed

text \<open>
  Claim C7, as the code has it. With the test-mode flag set, \<open>handle_event\<close> appends
  the event to the audit log and runs the matcher (an exception of \<open>find_match\<close> leaves
  \<open>handle_event\<close>, and there is no other), and does nothing else, for every payload,
  mode, host and list of backends: \<open>play_sound\<close> and \<open>speak_text\<close> are not called,
  so there is no sound-file lookup, no backend is invoked and there is no delay.
\<close>

theorem test_mode_only_matches:
  assumes "test_mode cfg"
  shows "fst (handle_event h cfg sound_players voice_players ev) = [LogEvent ev] \<and>
         snd (handle_event h cfg sound_players voice_players ev) =
           (case find_match ev of Inl e \<Rightarrow> Some e | Inr d \<Rightarrow> None) \<and>
         deliver h cfg sound_players voice_players d = []"
  using assms by (simp add: handle_event_def deliver_def split: sum.splits prod.splits)

lemma demo_players:
  "init_sound_players demo_host = [SystemBeepPlayer]" "init_voice_players demo_host = []"
  by (simp_all add: init_sound_players_def init_sound_players_from_def init_voice_players_def
      demo_host_def)

theorem test_mode_only_matches_witness:
  "test_mode (demo_config ''both'' True) \<and>
   fst (handle_event demo_host (demo_config ''both'' True) [SystemBeepPlayer] [] git_commit_event)
     = [LogEvent git_commit_event] \<and>
   snd (handle_event demo_host (demo_config ''both'' True) [SystemBeepPlayer] [] git_commit_event)
     = None \<and>
   find_match numeric_name_event = Inl TypeError \<and>
   handle_event demo_host (demo_config ''both'' True) [SystemBeepPlayer] [] numeric_name_event
     = ([LogEvent numeric_name_event], Some TypeError)"
proof -
  have a: "test_mode (demo_config ''both'' True)" by (simp add: demo_config_def)
  have b: "find_match git_commit_event = Inr (Some (u ''commit''), Some (u ''git_commit''))"
    by (simp add: git_commit_event_def find_match_def py_get_def u_def system_events_def
        tools_def bash_commands_def Pattern_def matches_def re_match_def fold_case_def
        is_space_def Plus_def pair_of_def)
  have c: "find_match numeric_name_event = Inl TypeError"
    by (simp add: numeric_name_event_def find_match_def py_get_def system_events_def
        Pattern_def matches_def)
  show ?thesis
    using test_mode_only_matches [OF a, of demo_host "[SystemBeepPlayer]" "[]" git_commit_event]
      test_mode_only_matches [OF a, of demo_host "[SystemBeepPlayer]" "[]" numeric_name_event]
      a b c
    by (simp add: prod_eq_iff)
qed

text \<open>
  Claim C7, as stated, fails in its first half: in test mode no sound resource is
  resolved. For the event \<open>Stop\<close> in mode \<open>sound\<close> the directive carries the sound
  \<open>complete\<close>; without test mode the run looks the file up, with test mode the lookup
  is not made.
\<close>

theorem test_mode_skips_resolution:
  "test_mode (demo_config ''sound'' True) \<and>
   find_match stop_event = Inr (Some (u ''complete''), Some (u ''Stop'')) \<and>
   fst (handle_event demo_host (demo_config ''sound'' True) (init_sound_players demo_host)
          (init_voice_players demo_host) stop_event) = [LogEvent stop_event] \<and>
   fst (handle_event demo_host (demo_config ''sound'' False) (init_sound_players demo_host)
          (init_voice_players demo_host) stop_event) =
     [LogEvent stop_event, CallPlaySound (u ''complete''), FindSoundFile (u ''complete''),
      PathExists (Path [u ''sounds'', u ''beeps'', u ''complete.wav'']),
      Play SystemBeepPlayer (Path [u ''sounds'', u ''beeps'', u ''complete.wav''])]"
proof -
  have ok: "\<not> py_in (u ''/'') (u ''complete'')" "\<not> py_in [92] (u ''complete'')"
    "\<not> py_in (u ''..'') (u ''complete'')"
    by (simp_all add: u_def)
  have neq: "u ''complete'' \<noteq> []" "u ''Stop'' \<noteq> []" by (simp_all add: u_def)
  have app: "u ''complete'' @ u ''.wav'' = u ''complete.wav''" by (simp add: u_def)
  show ?thesis
    by (simp add: handle_event_def find_match_stop deliver_def demo_config_def demo_players
        call_play_sound_def play_sound_def ok neq find_sound_file_def app)
       (simp add: demo_host_def)
qed

section \<open>Mode both\<close>

lemma mode_both: "u ''both'' \<noteq> u ''sound''" "u ''both'' \<noteq> u ''voice''"
  by (simp_all add: u_def)

lemma deliver_both:
  assumes "mode cfg = u ''both''" and "\<not> test_mode cfg"
  shows "deliver h cfg sps vps (s, v) =
    (if truthy v then call_speak_text h vps (japanese_text (str_of v)) else []) @
    (if truthy s then Sleep 100 # call_play_sound h cfg sps (str_of s) else [])"
  using assms mode_both by (simp add: deliver_def)

text \<open>
  Claim C8, as the code has it. In mode \<open>both\<close> with the test-mode flag off, for every
  event whose directive has a voice key and a sound, \<open>handle_event\<close> first calls
  \<open>speak_text\<close> with the localized text, then sleeps for 100 ms, then calls
  \<open>play_sound\<close>. Each step depends on its own half of the directive only: with a voice
  key and no sound the voice step alone runs, with a sound and no voice key the delay and the
  sound step run.
\<close>

theorem both_mode_voice_then_sound:
  assumes "mode cfg = u ''both''" and "\<not> test_mode cfg"
  shows "(find_match ev = Inr (Some s, Some v) \<longrightarrow>
            fst (handle_event h cfg sps vps ev) =
              LogEvent ev # CallSpeakText (japanese_text v) #
              snd (speak_text h vps (japanese_text v)) @
              Sleep 100 # CallPlaySound s # snd (play_sound h cfg sps s)) \<and>
         (v \<noteq> [] \<longrightarrow>
            deliver h cfg sps vps (None, Some v) =
              CallSpeakText (japanese_text v) # snd (speak_text h vps (japanese_text v))) \<and>
         (s \<noteq> [] \<longrightarrow>
            deliver h cfg sps vps (Some s, None) =
              Sleep 100 # CallPlaySound s # snd (play_sound h cfg sps s))"
proof (intro conjI impI)
  assume fm: "find_match ev = Inr (Some s, Some v)"
  then have "s \<noteq> []" "v \<noteq> []" using find_match_nonempty [OF fm] by simp_all
  then show "fst (handle_event h cfg sps vps ev) =
      LogEvent ev # CallSpeakText (japanese_text v) # snd (speak_text h vps (japanese_text v)) @
      Sleep 100 # CallPlaySound s # snd (play_sound h cfg sps s)"
    by (simp add: handle_event_def fm deliver_both [OF assms] call_speak_text_def
        call_play_sound_def)
next
  assume "v \<noteq> []"
  then show "deliver h cfg sps vps (None, Some v) =
      CallSpeakText (japanese_text v) # snd (speak_text h vps (japanese_text v))"
    by (simp add: deliver_both [OF assms] call_speak_text_def)
next
  assume "s \<noteq> []"
  then show "deliver h cfg sps vps (Some s, None) =
      Sleep 100 # CallPlaySound s # snd (play_sound h cfg sps s)"
    by (simp add: deliver_both [OF assms] call_play_sound_def)
qed

lemma japanese_Stop: "japanese_text (u ''Stop'') =
    [12479, 12473, 12463, 12364, 23436, 20102, 12375, 12414, 12375, 12383]"
  by (simp add: japanese_text_def JAPANESE_EVENT_DESCRIPTIONS_def u_def)

theorem both_mode_voice_then_sound_witness:
  "mode (demo_config ''both'' False) = u ''both'' \<and> \<not> test_mode (demo_config ''both'' False) \<and>
   find_match stop_event = Inr (Some (u ''complete''), Some (u ''Stop'')) \<and>
   fst (handle_event demo_host (demo_config ''both'' False) [SystemBeepPlayer]
          [EspeakVoicePlayer] stop_event) =
     [LogEvent stop_event,
      CallSpeakText (japanese_text (u ''Stop'')),
      Speak EspeakVoicePlayer (japanese_text (u ''Stop'')),
      Sleep 100,
      CallPlaySound (u ''complete''),
      FindSoundFile (u ''complete''),
      PathExists (Path [u ''sounds'', u ''beeps'', u ''complete.wav'']),
      Play SystemBeepPlayer (Path [u ''sounds'', u ''beeps'', u ''complete.wav''])]"
proof -
  have a: "mode (demo_config ''both'' False) = u ''both''"
    and b: "\<not> test_mode (demo_config ''both'' False)"
    by (simp_all add: demo_config_def)
  have ok: "\<not> py_in (u ''/'') (u ''complete'')" "\<not> py_in [92] (u ''complete'')"
    "\<not> py_in (u ''..'') (u ''complete'')"
    by (simp_all add: u_def)
  have app: "u ''complete'' @ u ''.wav'' = u ''complete.wav''" by (simp add: u_def)
  have sp: "snd (speak_text demo_host [EspeakVoicePlayer] t) = [Speak EspeakVoicePlayer t]" for t
    by (simp add: speak_text_def demo_host_def)
  have pl: "snd (play_sound demo_host (demo_config ''both'' False) [SystemBeepPlayer]
               (u ''complete'')) =
      [FindSoundFile (u ''complete''),
       PathExists (Path [u ''sounds'', u ''beeps'', u ''complete.wav'']),
       Play SystemBeepPlayer (Path [u ''sounds'', u ''beeps'', u ''complete.wav''])]"
    by (simp add: play_sound_def ok find_sound_file_def app demo_config_def)
       (simp add: demo_host_def)
  show ?thesis
    using both_mode_voice_then_sound [OF a b, of stop_event "u ''complete''" "u ''Stop''"
        demo_host "[SystemBeepPlayer]" "[EspeakVoicePlayer]"]
      find_match_stop a b sp pl
    by simp
qed

text \<open>
  Claim C8, as stated, fails where the test-mode flag is set: in mode \<open>both\<close> the
  event \<open>Stop\<close> has a directive with both halves, and neither step runs.
\<close>

theorem both_mode_silent_in_test_mode:
  "mode (demo_config ''both'' True) = u ''both'' \<and>
   find_match stop_event = Inr (Some (u ''complete''), Some (u ''Stop'')) \<and>
   fst (handle_event demo_host (demo_config ''both'' True) [SystemBeepPlayer]
          [EspeakVoicePlayer] stop_event) = [LogEvent stop_event]"
  by (simp add: find_match_stop handle_event_def deliver_def demo_config_def)

section \<open>Exit status\<close>

lemma handle_event_error:
  "snd (handle_event h cfg sps vps ev) = Some e \<Longrightarrow> e = AttributeError \<or> e = TypeError"
  by (auto simp: handle_event_def split: sum.splits dest: find_match_error)

lemma exc_of_not_decode: "exc_of f \<noteq> JSONDecodeError"
  by (cases f) simp_all

text \<open>
  Claim C6. The exit status of \<open>main\<close> is 1 when a \<open>JSONDecodeError\<close> leaves the
  \<open>try\<close> body and 0 in every other run; and a \<open>JSONDecodeError\<close> leaves the body
  exactly when \<open>load_config\<close> and the construction of the handler went through and
  \<open>json.load(sys.stdin)\<close> raised it. Every other fault (in the setup, in reading the
  input, or the \<open>TypeError\<close> and \<open>AttributeError\<close> of event handling) gives 0.
\<close>

theorem exit_status:
  "main r = (if raised r = Some JSONDecodeError then 1 else 0) \<and>
   (raised r = Some JSONDecodeError \<longleftrightarrow> setup_fault r = None \<and> stdin r = Undecodable)"
proof
  show "main r = (if raised r = Some JSONDecodeError then 1 else 0)"
  proof (cases "raised r")
    case None
    then show ?thesis by (simp add: main_def)
  next
    case (Some e)
    then show ?thesis by (cases e) (simp_all add: main_def)
  qed
next
  show "raised r = Some JSONDecodeError \<longleftrightarrow> setup_fault r = None \<and> stdin r = Undecodable"
  proof (cases "setup_fault r")
    case (Some f)
    then show ?thesis by (simp add: raised_def exc_of_not_decode)
  next
    case None
    show ?thesis
    proof (cases "stdin r")
      case (Parsed ev)
      with None show ?thesis
        using handle_event_error [of "host r" "config r" "init_sound_players (host r)"
            "init_voice_players (host r)" ev JSONDecodeError]
        by (auto simp: raised_def)
    next
      case Undecodable
      with None show ?thesis by (simp add: raised_def)
    next
      case (Unreadable f)
      with None show ?thesis by (simp add: raised_def exc_of_not_decode)
    qed
  qed
qed

theorem exit_status_witness:
  "main (demo_run None Undecodable) = 1 \<and>
   main (demo_run None (Parsed numeric_name_event)) = 0 \<and>
   raised (demo_run None (Parsed numeric_name_event)) = Some TypeError \<and>
   main (demo_run (Some Failure) Undecodable) = 0 \<and>
   main (demo_run None (Unreadable Interrupt)) = 0 \<and>
   main (demo_run None (Parsed stop_event)) = 0"
proof -
  have a: "raised (demo_run None (Parsed numeric_name_event)) = Some TypeError"
    by (simp add: raised_def demo_run_def handle_event_def numeric_name_event_def find_match_def
        py_get_def system_events_def Pattern_def matches_def)
  show ?thesis
    using exit_status [of "demo_run None Undecodable"]
      exit_status [of "demo_run None (Parsed numeric_name_event)"]
      exit_status [of "demo_run (Some Failure) Undecodable"]
      exit_status [of "demo_run None (Unreadable Interrupt)"]
      exit_status [of "demo_run None (Parsed stop_event)"] a
    by (simp add: demo_run_def)
qed

end
